theory Spec2Isabelle
  imports Complex_Main
begin

section \<open>The environment \<open>MyEnv\<close> of \<open>rl_exercises/week_2/my_env.py\<close>\<close>

text \<open>
  \<open>MyEnv\<close> is a small deterministic MDP: \<open>n\<close> states on a line, action \<open>0\<close> moves one
  cell down, every other action one cell up, and the position is clamped into \<open>0 .. n - 1\<close>.
  The class is embedded as a record of its attributes, its methods as functions that take
  the instance and return, where they assign to an attribute, the updated instance.
  Every exception the Python can raise is a value of \<open>error\<close>.

  The entries of \<open>P\<close>, of \<open>rewards\<close> and of the arrays the methods build are Python floats.
  The code only copies them (\<open>float(x)\<close>) and never computes with them, so they are
  modelled as \<open>real\<close>. The random generator \<open>rng\<close> is created and never read; it is left out,
  as are the ignored arguments \<open>seed\<close> and \<open>options\<close>.
\<close>

subsection \<open>Data\<close>

datatype error =
    RuntimeError \<comment> \<open>raised by \<open>step\<close> on an action outside the action space\<close>
  | IndexError \<comment> \<open>a list or array index out of range\<close>
  | AttributeError \<comment> \<open>an attribute read before it was ever assigned\<close>
  | AssertionError \<comment> \<open>\<open>Discrete(n)\<close> with \<open>n \<le> 0\<close>\<close>
  | ValueError \<comment> \<open>an array of a shape numpy refuses\<close>

type_synonym matrix = "real list list"
type_synonym tensor = "real list list list"
type_synonym info = "(string \<times> string) list"

text \<open>
  A space \<open>Discrete(n)\<close> is represented by its size \<open>n\<close>. The attribute \<open>transition_count\<close> is
  assigned by \<open>reset\<close> only, so it is optional: \<open>None\<close> is an instance on which the attribute
  does not exist yet. \<open>transition_matrix\<close> and \<open>T\<close> name the same array.
\<close>

record env =
  P :: matrix
  rewards :: "real list"
  horizon :: int
  state :: int
  observation_space :: int
  action_space :: int
  states :: "int list"
  actions :: "int list"
  transition_matrix :: tensor
  T :: tensor
  transition_count :: "int option"

type_synonym step_result = "int \<times> real \<times> bool \<times> bool \<times> info"

subsection \<open>Indexing\<close>

text \<open>
  Python lists and numpy arrays normalise an index the same way: \<open>i\<close> in \<open>0 .. d - 1\<close> is
  itself, \<open>i\<close> in \<open>-d .. -1\<close> counts from the end, anything else raises \<open>IndexError\<close>.
\<close>

definition index_of :: "nat \<Rightarrow> int \<Rightarrow> nat option" where
  "index_of d i =
     (if 0 \<le> i \<and> i < int d then Some (nat i)
      else if - int d \<le> i \<and> i < 0 then Some (nat (i + int d))
      else None)"

definition getitem :: "'a list \<Rightarrow> int \<Rightarrow> 'a option" where
  "getitem xs i = (case index_of (length xs) i of None \<Rightarrow> None | Some j \<Rightarrow> Some (xs ! j))"

definition getitem2 :: "'a list list \<Rightarrow> int \<Rightarrow> int \<Rightarrow> 'a option" where
  "getitem2 M s a = (case getitem M s of None \<Rightarrow> None | Some row \<Rightarrow> getitem row a)"

definition setitem2 :: "'a list list \<Rightarrow> int \<Rightarrow> int \<Rightarrow> 'a \<Rightarrow> 'a list list option" where
  "setitem2 M s a v =
     (case index_of (length M) s of None \<Rightarrow> None
      | Some i \<Rightarrow>
          (case index_of (length (M ! i)) a of None \<Rightarrow> None
           | Some j \<Rightarrow> Some (M[i := (M ! i)[j := v]])))"

definition setitem3 :: "'a list list list \<Rightarrow> int \<Rightarrow> int \<Rightarrow> int \<Rightarrow> 'a \<Rightarrow> 'a list list list option" where
  "setitem3 Tm s a k v =
     (case index_of (length Tm) s of None \<Rightarrow> None
      | Some i \<Rightarrow>
          (case setitem2 (Tm ! i) a k v of None \<Rightarrow> None
           | Some row \<Rightarrow> Some (Tm[i := row])))"

text \<open>
  \<open>Discrete(n).contains(x)\<close> of the gymnasium library, for an integer \<open>x\<close> and the default
  start \<open>0\<close>: membership in \<open>0 .. n - 1\<close>.
\<close>

definition contains :: "int \<Rightarrow> int \<Rightarrow> bool" where
  "contains n x = (0 \<le> x \<and> x < n)"

subsection \<open>\<open>get_transition_matrix\<close>\<close>

text \<open>
  The two nested \<open>for\<close> loops over \<open>S\<close> and \<open>A\<close>; each iteration reads \<open>P[s, a]\<close> and stores it
  at \<open>T[s, a, s_next]\<close>.
\<close>

fun tm_actions :: "int \<Rightarrow> matrix \<Rightarrow> int \<Rightarrow> int list \<Rightarrow> tensor \<Rightarrow> error + tensor" where
  "tm_actions nS Pm s [] Tm = Inr Tm"
| "tm_actions nS Pm s (a # as) Tm =
     (let s_next = max 0 (min (nS - 1) (s + (if a = 0 then - 1 else 1))) in
      case getitem2 Pm s a of
        None \<Rightarrow> Inl IndexError
      | Some p \<Rightarrow>
          (case setitem3 Tm s a s_next p of
             None \<Rightarrow> Inl IndexError
           | Some Tm' \<Rightarrow> tm_actions nS Pm s as Tm'))"

fun tm_states :: "int \<Rightarrow> matrix \<Rightarrow> int list \<Rightarrow> int list \<Rightarrow> tensor \<Rightarrow> error + tensor" where
  "tm_states nS Pm [] A Tm = Inr Tm"
| "tm_states nS Pm (s # ss) A Tm =
     (case tm_actions nS Pm s A Tm of
        Inl err \<Rightarrow> Inl err
      | Inr Tm' \<Rightarrow> tm_states nS Pm ss A Tm')"

text \<open>
  The guard of the source replaces all three arguments by the instance's attributes as soon
  as one of them is \<open>None\<close>.
\<close>

definition get_transition_matrix ::
  "env \<Rightarrow> int list option \<Rightarrow> int list option \<Rightarrow> matrix option \<Rightarrow> error + tensor" where
  "get_transition_matrix e S A Pm =
     (let (S', A', P') =
            (if S = None \<or> A = None \<or> Pm = None then (states e, actions e, P e)
             else (the S, the A, the Pm));
          nS = length S';
          nA = length A'
      in tm_states (int nS) P' S' A' (replicate nS (replicate nA (replicate nS 0))))"

subsection \<open>Construction\<close>

text \<open>
  \<open>np.array\<close> of a nested list is a matrix only if all rows have one length; \<open>Discrete(n)\<close>
  asserts \<open>n > 0\<close>. \<open>get_transition_matrix()\<close> runs on the instance before the two tensor
  attributes exist; it reads \<open>states\<close>, \<open>actions\<close> and \<open>P\<close> only. \<open>transition_count\<close> is not
  assigned.
\<close>

definition construct :: "matrix \<Rightarrow> int \<Rightarrow> real list \<Rightarrow> error + env" where
  "construct transition_probabilities hor rws =
     (if \<not> list_all (\<lambda>row. length row = length (hd transition_probabilities))
             transition_probabilities
      then Inl ValueError
      else
        let n = length transition_probabilities in
        if \<not> 0 < n then Inl AssertionError
        else
          let e0 = \<lparr> P = transition_probabilities, rewards = rws, horizon = hor, state = 0,
                     observation_space = int n, action_space = int n,
                     states = map int [0..<n], actions = map int [0..<n],
                     transition_matrix = [], T = [], transition_count = None \<rparr>
          in case get_transition_matrix e0 None None None of
               Inl err \<Rightarrow> Inl err
             | Inr Tm \<Rightarrow> Inr (e0\<lparr>transition_matrix := Tm, T := Tm\<rparr>))"

subsection \<open>\<open>reset\<close> and \<open>step\<close>\<close>

definition reset :: "env \<Rightarrow> (int \<times> info) \<times> env" where
  "reset e =
     (let e1 = e\<lparr>transition_count := Some 0\<rparr>;
          e2 = e1\<lparr>state := 0\<rparr>
      in ((state e2, []), e2))"

text \<open>
  \<open>step\<close> raises before or after it has assigned \<open>state\<close>; the instance returned with an
  error is the instance as the exception leaves it.
\<close>

definition step :: "env \<Rightarrow> int \<Rightarrow> (error + step_result) \<times> env" where
  "step e action =
     (if \<not> contains (action_space e) action then (Inl RuntimeError, e)
      else
        let e' = e\<lparr>state :=
                     max 0 (min (observation_space e - 1)
                                (state e + (if action = 0 then - 1 else 1)))\<rparr>
        in case getitem (rewards e') (state e') of
             None \<Rightarrow> (Inl IndexError, e')
           | Some reward \<Rightarrow>
               (case transition_count e' of
                  None \<Rightarrow> (Inl AttributeError, e')
                | Some c \<Rightarrow> (Inr (state e', reward, False, horizon e' \<le> c, []), e')))"

subsection \<open>\<open>get_reward_per_action\<close>\<close>

fun rpa_actions :: "int \<Rightarrow> real list \<Rightarrow> int \<Rightarrow> int list \<Rightarrow> matrix \<Rightarrow> error + matrix" where
  "rpa_actions nS rw s [] R = Inr R"
| "rpa_actions nS rw s (a # as) R =
     (let nxt = max 0 (min (nS - 1) (s + (if a = 0 then - 1 else 1))) in
      case getitem rw nxt of
        None \<Rightarrow> Inl IndexError
      | Some r \<Rightarrow>
          (case setitem2 R s a r of
             None \<Rightarrow> Inl IndexError
           | Some R' \<Rightarrow> rpa_actions nS rw s as R'))"

fun rpa_states :: "int \<Rightarrow> real list \<Rightarrow> int list \<Rightarrow> int list \<Rightarrow> matrix \<Rightarrow> error + matrix" where
  "rpa_states nS rw [] A R = Inr R"
| "rpa_states nS rw (s # ss) A R =
     (case rpa_actions nS rw s A R of
        Inl err \<Rightarrow> Inl err
      | Inr R' \<Rightarrow> rpa_states nS rw ss A R')"

text \<open>\<open>range(k)\<close> is empty for \<open>k \<le> 0\<close>; \<open>np.zeros\<close> refuses a negative dimension.\<close>

definition range :: "int \<Rightarrow> int list" where
  "range k = map int [0..<nat k]"

definition get_reward_per_action :: "env \<Rightarrow> error + matrix" where
  "get_reward_per_action e =
     (let nS = observation_space e; nA = action_space e in
      if nS < 0 \<or> nA < 0 then Inl ValueError
      else rpa_states nS (rewards e) (range nS) (range nA)
             (replicate (nat nS) (replicate (nat nA) 0)))"

subsection \<open>Histories of calls\<close>

text \<open>
  A caller may invoke the four methods in any order and carry on after an exception.
  \<open>perform\<close> is the instance after one call; the two derivation methods contain no
  assignment to an attribute, so they leave it as it is.
\<close>

datatype call =
    Reset
  | Step int
  | GetRewardPerAction
  | GetTransitionMatrix "int list option" "int list option" "matrix option"

fun perform :: "env \<Rightarrow> call \<Rightarrow> env" where
  "perform e Reset = snd (reset e)"
| "perform e (Step a) = snd (step e a)"
| "perform e GetRewardPerAction = e"
| "perform e (GetTransitionMatrix S A Pm) = e"

definition history :: "env \<Rightarrow> call list \<Rightarrow> env" where
  "history e cs = foldl perform e cs"

subsection \<open>The rule as the specification words it\<close>

definition clamp :: "int \<Rightarrow> int \<Rightarrow> int \<Rightarrow> int" where
  "clamp x lo hi = (if x < lo then lo else if hi < x then hi else x)"

definition successor :: "int \<Rightarrow> int \<Rightarrow> int \<Rightarrow> int" where
  "successor n s a = clamp (s + (if a = 0 then - 1 else 1)) 0 (n - 1)"

subsection \<open>Reading a result of \<open>step\<close>\<close>

fun terminated_of :: "step_result \<Rightarrow> bool" where
  "terminated_of (s, r, te, tr, i) = te"

fun truncated_of :: "step_result \<Rightarrow> bool" where
  "truncated_of (s, r, te, tr, i) = tr"

subsection \<open>Shapes of the arrays\<close>

text \<open>
  \<open>grid R a b\<close>: \<open>R\<close> has \<open>a\<close> rows of \<open>b\<close> entries; \<open>cube Tm a b c\<close>: \<open>Tm\<close> has shape
  \<open>(a, b, c)\<close>.
\<close>

definition grid :: "'a list list \<Rightarrow> nat \<Rightarrow> nat \<Rightarrow> bool" where
  "grid R a b = (length R = a \<and> (\<forall>i<a. length (R ! i) = b))"

definition cube :: "'a list list list \<Rightarrow> nat \<Rightarrow> nat \<Rightarrow> nat \<Rightarrow> bool" where
  "cube Tm a b c = (length Tm = a \<and> (\<forall>i<a. length (Tm ! i) = b \<and> (\<forall>j<b. length (Tm ! i ! j) = c)))"

subsection \<open>Instances used as examples\<close>

text \<open>
  \<open>ones n\<close> is \<open>np.ones((n, n))\<close>; \<open>construct (ones 2) 10 [0, 1]\<close> is the call \<open>MyEnv()\<close> with
  all defaults. \<open>env2\<close>, \<open>env3\<close> and \<open>env0\<close> are the instances the constructor returns for
  the default arguments, for a 3 by 3 matrix with the default rewards, and for a matrix
  with a zero entry.
\<close>

definition ones :: "nat \<Rightarrow> matrix" where
  "ones n = replicate n (replicate n 1)"

definition env2 :: env where
  "env2 = \<lparr> P = [[1, 1], [1, 1]], rewards = [0, 1], horizon = 10, state = 0,
             observation_space = 2, action_space = 2, states = [0, 1], actions = [0, 1],
             transition_matrix = [[[1, 0], [0, 1]], [[1, 0], [0, 1]]],
             T = [[[1, 0], [0, 1]], [[1, 0], [0, 1]]], transition_count = None \<rparr>"

definition env3 :: env where
  "env3 = \<lparr> P = [[1, 1, 1], [1, 1, 1], [1, 1, 1]], rewards = [0, 1], horizon = 10, state = 0,
             observation_space = 3, action_space = 3, states = [0, 1, 2], actions = [0, 1, 2],
             transition_matrix = [[[1, 0, 0], [0, 1, 0], [0, 1, 0]], [[1, 0, 0], [0, 0, 1], [0, 0, 1]],
                                  [[0, 1, 0], [0, 0, 1], [0, 0, 1]]],
             T = [[[1, 0, 0], [0, 1, 0], [0, 1, 0]], [[1, 0, 0], [0, 0, 1], [0, 0, 1]],
                  [[0, 1, 0], [0, 0, 1], [0, 0, 1]]], transition_count = None \<rparr>"

definition env0 :: env where
  "env0 = \<lparr> P = [[0, 1], [1, 1]], rewards = [0, 1], horizon = 10, state = 0,
             observation_space = 2, action_space = 2, states = [0, 1], actions = [0, 1],
             transition_matrix = [[[0, 0], [0, 1]], [[1, 0], [0, 1]]],
             T = [[[0, 0], [0, 1]], [[1, 0], [0, 1]]], transition_count = None \<rparr>"

section \<open>Properties\<close>

subsection \<open>Indexing and the successor rule\<close>

lemma index_of_nat: "i < d \<Longrightarrow> index_of d (int i) = Some i"
  by (simp add: index_of_def)

lemma index_of_nonneg: "0 \<le> x \<Longrightarrow> index_of d x = (if x < int d then Some (nat x) else None)"
  by (simp add: index_of_def)

lemma getitem_nat: "i < length xs \<Longrightarrow> getitem xs (int i) = Some (xs ! i)"
  by (simp add: getitem_def index_of_nat)

lemma getitem_nonneg:
  "0 \<le> x \<Longrightarrow> getitem xs x = (if x < int (length xs) then Some (xs ! nat x) else None)"
  by (simp add: getitem_def index_of_nonneg)

lemma getitem2_nat:
  "i < length M \<Longrightarrow> j < length (M ! i) \<Longrightarrow> getitem2 M (int i) (int j) = Some (M ! i ! j)"
  by (simp add: getitem2_def getitem_nat)

lemma getitem2_SomeD:
  "getitem2 M (int i) (int j) = Some v \<Longrightarrow> i < length M \<and> j < length (M ! i) \<and> v = M ! i ! j"
  by (auto simp: getitem2_def getitem_nonneg split: option.splits if_splits)

lemma setitem2_nat:
  "i < length M \<Longrightarrow> j < length (M ! i) \<Longrightarrow>
   setitem2 M (int i) (int j) v = Some (M[i := (M ! i)[j := v]])"
  by (simp add: setitem2_def index_of_nat)

lemma setitem3_nat:
  "i < length Tm \<Longrightarrow> j < length (Tm ! i) \<Longrightarrow> k < length (Tm ! i ! j) \<Longrightarrow>
   setitem3 Tm (int i) (int j) (int k) v = Some (Tm[i := (Tm ! i)[j := (Tm ! i ! j)[k := v]]])"
  by (simp add: setitem3_def index_of_nat setitem2_nat)

lemma next_successor:
  "0 < n \<Longrightarrow> max 0 (min (n - 1) (s + (if a = 0 then - 1 else 1))) = successor n s a"
  by (auto simp: successor_def clamp_def)

lemma successor_range: "0 < n \<Longrightarrow> 0 \<le> successor n s a \<and> successor n s a < n"
  by (auto simp: successor_def clamp_def)

lemma cube_put:
  "cube Tm a b c \<Longrightarrow> i < a \<Longrightarrow> j < b \<Longrightarrow>
   cube (Tm[i := (Tm ! i)[j := (Tm ! i ! j)[k := v]]]) a b c"
  by (auto simp: cube_def nth_list_update)

lemma nth_put:
  "cube Tm a b c \<Longrightarrow> i < a \<Longrightarrow> j < b \<Longrightarrow> k < c \<Longrightarrow> i' < a \<Longrightarrow> j' < b \<Longrightarrow> k' < c \<Longrightarrow>
   Tm[i := (Tm ! i)[j := (Tm ! i ! j)[k := v]]] ! i' ! j' ! k' =
     (if i' = i \<and> j' = j \<and> k' = k then v else Tm ! i' ! j' ! k')"
  by (auto simp: cube_def nth_list_update)

subsection \<open>The loops of \<open>get_transition_matrix\<close>\<close>

lemma tm_actions_ok:
  assumes "cube Tm nS nA nS" "s < nS" "s < length Pm" "\<forall>a\<in>set as. a < nA \<and> a < length (Pm ! s)"
  shows "\<exists>Tm'. tm_actions (int nS) Pm (int s) (map int as) Tm = Inr Tm' \<and> cube Tm' nS nA nS \<and>
           (\<forall>i<nS. \<forall>j<nA. \<forall>k<nS. Tm' ! i ! j ! k =
              (if i = s \<and> j \<in> set as \<and> int k = successor (int nS) (int s) (int j)
               then Pm ! s ! j else Tm ! i ! j ! k))"
  using assms
proof (induction as arbitrary: Tm)
  case Nil
  then show ?case by simp
next
  case (Cons a as)
  let ?k = "nat (successor (int nS) (int s) (int a))"
  let ?T1 = "Tm[s := (Tm ! s)[a := (Tm ! s ! a)[?k := Pm ! s ! a]]]"
  from Cons.prems have a: "a < nA" "a < length (Pm ! s)" by simp_all
  from Cons.prems have pos: "0 < int nS" by simp
  have k: "?k < nS" "int ?k = successor (int nS) (int s) (int a)"
    using successor_range [OF pos, of "int s" "int a"] by auto
  have len: "s < length Tm" "a < length (Tm ! s)" "?k < length (Tm ! s ! a)"
    using Cons.prems(1,2) a(1) k(1) by (simp_all add: cube_def)
  have set: "setitem3 Tm (int s) (int a) (successor (int nS) (int s) (int a)) (Pm ! s ! a) = Some ?T1"
    using setitem3_nat [OF len, of "Pm ! s ! a"] k(2) by simp
  have c1: "cube ?T1 nS nA nS"
    using cube_put [OF Cons.prems(1) Cons.prems(2) a(1)] .
  from Cons.IH [OF c1 Cons.prems(2) Cons.prems(3)] Cons.prems(4)
  obtain Tm' where r: "tm_actions (int nS) Pm (int s) (map int as) ?T1 = Inr Tm'"
    and c': "cube Tm' nS nA nS"
    and v: "\<forall>i<nS. \<forall>j<nA. \<forall>k<nS. Tm' ! i ! j ! k =
              (if i = s \<and> j \<in> set as \<and> int k = successor (int nS) (int s) (int j)
               then Pm ! s ! j else ?T1 ! i ! j ! k)"
    by auto
  have run: "tm_actions (int nS) Pm (int s) (map int (a # as)) Tm = Inr Tm'"
    using r set getitem2_nat [OF Cons.prems(3) a(2)] next_successor [OF pos, of "int s" "int a"]
    by (simp add: Let_def del: of_nat_eq_0_iff)
  have "Tm' ! i ! j ! k' =
          (if i = s \<and> j \<in> set (a # as) \<and> int k' = successor (int nS) (int s) (int j)
           then Pm ! s ! j else Tm ! i ! j ! k')"
    if "i < nS" "j < nA" "k' < nS" for i j k'
    using v that nth_put [OF Cons.prems(1) Cons.prems(2) a(1) k(1) that, of "Pm ! s ! a"] k(2)
    by auto
  with run c' show ?case by blast
qed

lemma tm_states_ok:
  assumes "cube Tm nS nA nS" "\<forall>s\<in>set ss. s < nS \<and> s < length Pm \<and> (\<forall>a\<in>set as. a < length (Pm ! s))"
    "\<forall>a\<in>set as. a < nA"
  shows "\<exists>Tm'. tm_states (int nS) Pm (map int ss) (map int as) Tm = Inr Tm' \<and> cube Tm' nS nA nS \<and>
           (\<forall>i<nS. \<forall>j<nA. \<forall>k<nS. Tm' ! i ! j ! k =
              (if i \<in> set ss \<and> j \<in> set as \<and> int k = successor (int nS) (int i) (int j)
               then Pm ! i ! j else Tm ! i ! j ! k))"
  using assms
proof (induction ss arbitrary: Tm)
  case Nil
  then show ?case by simp
next
  case (Cons s ss)
  from Cons.prems have s: "s < nS" "s < length Pm" "\<forall>a\<in>set as. a < nA \<and> a < length (Pm ! s)"
    by simp_all
  from tm_actions_ok [OF Cons.prems(1) s]
  obtain T1 where r1: "tm_actions (int nS) Pm (int s) (map int as) Tm = Inr T1"
    and c1: "cube T1 nS nA nS"
    and v1: "\<forall>i<nS. \<forall>j<nA. \<forall>k<nS. T1 ! i ! j ! k =
              (if i = s \<and> j \<in> set as \<and> int k = successor (int nS) (int s) (int j)
               then Pm ! s ! j else Tm ! i ! j ! k)"
    by blast
  have rest: "\<forall>s\<in>set ss. s < nS \<and> s < length Pm \<and> (\<forall>a\<in>set as. a < length (Pm ! s))"
    using Cons.prems(2) by simp
  from Cons.IH [OF c1 rest Cons.prems(3)]
  obtain Tm' where r: "tm_states (int nS) Pm (map int ss) (map int as) T1 = Inr Tm'"
    and c': "cube Tm' nS nA nS"
    and v: "\<forall>i<nS. \<forall>j<nA. \<forall>k<nS. Tm' ! i ! j ! k =
              (if i \<in> set ss \<and> j \<in> set as \<and> int k = successor (int nS) (int i) (int j)
               then Pm ! i ! j else T1 ! i ! j ! k)"
    by blast
  have run: "tm_states (int nS) Pm (map int (s # ss)) (map int as) Tm = Inr Tm'"
    using r1 r by simp
  have "Tm' ! i ! j ! k =
          (if i \<in> set (s # ss) \<and> j \<in> set as \<and> int k = successor (int nS) (int i) (int j)
           then Pm ! i ! j else Tm ! i ! j ! k)"
    if "i < nS" "j < nA" "k < nS" for i j k
    using v v1 that by auto
  with run c' show ?case by blast
qed

lemma cube_zeros: "cube (replicate a (replicate b (replicate c z))) a b c"
  by (simp add: cube_def)

text \<open>A run of the loops that returns has read every cell \<open>P[s, a]\<close> it visited.\<close>

lemma tm_actions_reads:
  "tm_actions nS Pm s as Tm = Inr Tm' \<Longrightarrow> a \<in> set as \<Longrightarrow> getitem2 Pm s a \<noteq> None"
  by (induction as arbitrary: Tm) (auto simp: Let_def split: option.splits)

lemma tm_states_reads:
  "tm_states nS Pm ss as Tm = Inr Tm' \<Longrightarrow> s \<in> set ss \<Longrightarrow> a \<in> set as \<Longrightarrow> getitem2 Pm s a \<noteq> None"
proof (induction ss arbitrary: Tm)
  case Nil
  then show ?case by simp
next
  case (Cons x ss)
  then show ?case
    by (auto split: sum.splits dest: tm_actions_reads)
qed

lemma gtm_default:
  "get_transition_matrix e None None None =
     tm_states (int (length (states e))) (P e) (states e) (actions e)
       (replicate (length (states e)) (replicate (length (actions e)) (replicate (length (states e)) 0)))"
  by (simp add: get_transition_matrix_def Let_def)

lemma gtm_instance:
  assumes st: "states e = map int [0..<n]" and ac: "actions e = map int [0..<n]"
    and rows: "n \<le> length (P e)" and cols: "\<forall>s<n. n \<le> length (P e ! s)"
  shows "\<exists>Tm. get_transition_matrix e None None None = Inr Tm \<and> cube Tm n n n \<and>
           (\<forall>i<n. \<forall>j<n. \<forall>k<n. Tm ! i ! j ! k =
              (if int k = successor (int n) (int i) (int j) then P e ! i ! j else 0))"
proof -
  have a: "\<forall>s\<in>set [0..<n]. s < n \<and> s < length (P e) \<and> (\<forall>a\<in>set [0..<n]. a < length (P e ! s))"
    using rows cols by fastforce
  have b: "\<forall>a\<in>set [0..<n]. a < n" by simp
  from tm_states_ok [OF cube_zeros [where z = "0::real"] a b]
  obtain Tm where r: "tm_states (int n) (P e) (map int [0..<n]) (map int [0..<n])
        (replicate n (replicate n (replicate n 0))) = Inr Tm"
    and c: "cube Tm n n n"
    and v: "\<forall>i<n. \<forall>j<n. \<forall>k<n. Tm ! i ! j ! k =
              (if i \<in> set [0..<n] \<and> j \<in> set [0..<n] \<and> int k = successor (int n) (int i) (int j)
               then P e ! i ! j else replicate n (replicate n (replicate n 0)) ! i ! j ! k)"
    by blast
  have "get_transition_matrix e None None None = Inr Tm"
    using r by (simp add: gtm_default st ac)
  moreover have "Tm ! i ! j ! k = (if int k = successor (int n) (int i) (int j) then P e ! i ! j else 0)"
    if "i < n" "j < n" "k < n" for i j k
    using v that by simp
  ultimately show ?thesis using c by blast
qed

subsection \<open>Construction and the frame of a history\<close>

lemma construct_Inr:
  assumes "construct tp hor rws = Inr e"
  shows "0 < length tp \<and>
         (\<exists>Tm. get_transition_matrix e None None None = Inr Tm \<and>
            e = \<lparr> P = tp, rewards = rws, horizon = hor, state = 0,
                  observation_space = int (length tp), action_space = int (length tp),
                  states = map int [0..<length tp], actions = map int [0..<length tp],
                  transition_matrix = Tm, T = Tm, transition_count = None \<rparr>)"
  using assms
  by (auto simp: construct_def Let_def gtm_default split: if_splits sum.splits)

lemma construct_columns:
  assumes c: "construct tp hor rws = Inr e" and s: "s < length tp"
  shows "length tp \<le> length (tp ! s)"
proof -
  from construct_Inr [OF c] obtain Tm where pos: "0 < length tp"
    and g: "get_transition_matrix e None None None = Inr Tm"
    and st: "states e = map int [0..<length tp]" and ac: "actions e = map int [0..<length tp]"
    and p: "P e = tp"
    by auto
  from g have run: "tm_states (int (length tp)) tp (map int [0..<length tp]) (map int [0..<length tp])
      (replicate (length tp) (replicate (length tp) (replicate (length tp) 0))) = Inr Tm"
    by (simp add: gtm_default st ac p)
  have "s \<in> set [0..<length tp]" "length tp - 1 \<in> set [0..<length tp]"
    using s pos by simp_all
  then have "int s \<in> set (map int [0..<length tp])"
    "int (length tp - 1) \<in> set (map int [0..<length tp])"
    unfolding set_map by (blast intro: imageI)+
  from tm_states_reads [OF run this]
  obtain v where "getitem2 tp (int s) (int (length tp - 1)) = Some v" by blast
  from getitem2_SomeD [OF this] show ?thesis by linarith
qed

lemma perform_frame:
  "perform e c = e\<lparr>state := state (perform e c), transition_count := transition_count (perform e c)\<rparr>"
  by (cases c) (auto simp: reset_def step_def Let_def split: option.splits)

lemma history_frame:
  "history e cs = e\<lparr>state := state (history e cs), transition_count := transition_count (history e cs)\<rparr>"
proof (induction cs rule: rev_induct)
  case Nil
  show ?case by (simp add: history_def)
next
  case (snoc c cs)
  have "history e (cs @ [c]) = perform (history e cs) c" by (simp add: history_def)
  then show ?case
    using perform_frame [of "history e cs" c] snoc.IH
    by (cases "history e cs"; cases e) simp
qed

subsection \<open>The loops of \<open>get_reward_per_action\<close>\<close>

lemma grid_put: "grid R a b \<Longrightarrow> i < a \<Longrightarrow> grid (R[i := (R ! i)[j := v]]) a b"
  by (auto simp: grid_def nth_list_update)

lemma nth_grid_put:
  "grid R a b \<Longrightarrow> i < a \<Longrightarrow> j < b \<Longrightarrow> i' < a \<Longrightarrow> j' < b \<Longrightarrow>
   R[i := (R ! i)[j := v]] ! i' ! j' = (if i' = i \<and> j' = j then v else R ! i' ! j')"
  by (auto simp: grid_def nth_list_update)

lemma grid_zeros: "grid (replicate a (replicate b z)) a b"
  by (simp add: grid_def)

lemma rpa_actions_ok:
  assumes "grid R nS nA" "s < nS" "\<forall>a\<in>set as. a < nA" "nS \<le> length rw"
  shows "\<exists>R'. rpa_actions (int nS) rw (int s) (map int as) R = Inr R' \<and> grid R' nS nA \<and>
           (\<forall>i<nS. \<forall>j<nA. R' ! i ! j =
              (if i = s \<and> j \<in> set as then rw ! nat (successor (int nS) (int s) (int j))
               else R ! i ! j))"
  using assms
proof (induction as arbitrary: R)
  case Nil
  then show ?case by simp
next
  case (Cons a as)
  let ?x = "successor (int nS) (int s) (int a)"
  let ?R1 = "R[s := (R ! s)[a := rw ! nat ?x]]"
  from Cons.prems have a: "a < nA" by simp
  from Cons.prems have pos: "0 < int nS" by simp
  have x: "0 \<le> ?x" "?x < int (length rw)"
    using successor_range [OF pos, of "int s" "int a"] Cons.prems(4) by auto
  have rd: "getitem rw ?x = Some (rw ! nat ?x)"
    using x by (simp add: getitem_nonneg)
  have len: "s < length R" "a < length (R ! s)"
    using Cons.prems(1,2) a by (simp_all add: grid_def)
  have g1: "grid ?R1 nS nA"
    using grid_put [OF Cons.prems(1) Cons.prems(2)] .
  have rest: "\<forall>a\<in>set as. a < nA" using Cons.prems(3) by simp
  from Cons.IH [OF g1 Cons.prems(2) rest Cons.prems(4)]
  obtain R' where r: "rpa_actions (int nS) rw (int s) (map int as) ?R1 = Inr R'"
    and g': "grid R' nS nA"
    and v: "\<forall>i<nS. \<forall>j<nA. R' ! i ! j =
              (if i = s \<and> j \<in> set as then rw ! nat (successor (int nS) (int s) (int j))
               else ?R1 ! i ! j)"
    by blast
  have run: "rpa_actions (int nS) rw (int s) (map int (a # as)) R = Inr R'"
    using r rd setitem2_nat [OF len, of "rw ! nat ?x"] next_successor [OF pos, of "int s" "int a"]
    by (simp add: Let_def del: of_nat_eq_0_iff)
  have "R' ! i ! j =
          (if i = s \<and> j \<in> set (a # as) then rw ! nat (successor (int nS) (int s) (int j))
           else R ! i ! j)"
    if "i < nS" "j < nA" for i j
    using v that nth_grid_put [OF Cons.prems(1) Cons.prems(2) a that, of "rw ! nat ?x"]
    by auto
  with run g' show ?case by blast
qed

lemma rpa_states_ok:
  assumes "grid R nS nA" "\<forall>s\<in>set ss. s < nS" "\<forall>a\<in>set as. a < nA" "nS \<le> length rw"
  shows "\<exists>R'. rpa_states (int nS) rw (map int ss) (map int as) R = Inr R' \<and> grid R' nS nA \<and>
           (\<forall>i<nS. \<forall>j<nA. R' ! i ! j =
              (if i \<in> set ss \<and> j \<in> set as then rw ! nat (successor (int nS) (int i) (int j))
               else R ! i ! j))"
  using assms
proof (induction ss arbitrary: R)
  case Nil
  then show ?case by simp
next
  case (Cons s ss)
  from Cons.prems have s: "s < nS" by simp
  from rpa_actions_ok [OF Cons.prems(1) s Cons.prems(3) Cons.prems(4)]
  obtain R1 where r1: "rpa_actions (int nS) rw (int s) (map int as) R = Inr R1"
    and g1: "grid R1 nS nA"
    and v1: "\<forall>i<nS. \<forall>j<nA. R1 ! i ! j =
              (if i = s \<and> j \<in> set as then rw ! nat (successor (int nS) (int s) (int j))
               else R ! i ! j)"
    by blast
  have rest: "\<forall>s\<in>set ss. s < nS" using Cons.prems(2) by simp
  from Cons.IH [OF g1 rest Cons.prems(3) Cons.prems(4)]
  obtain R' where r: "rpa_states (int nS) rw (map int ss) (map int as) R1 = Inr R'"
    and g': "grid R' nS nA"
    and v: "\<forall>i<nS. \<forall>j<nA. R' ! i ! j =
              (if i \<in> set ss \<and> j \<in> set as then rw ! nat (successor (int nS) (int i) (int j))
               else R1 ! i ! j)"
    by blast
  have run: "rpa_states (int nS) rw (map int (s # ss)) (map int as) R = Inr R'"
    using r1 r by simp
  have "R' ! i ! j =
          (if i \<in> set (s # ss) \<and> j \<in> set as then rw ! nat (successor (int nS) (int i) (int j))
           else R ! i ! j)"
    if "i < nS" "j < nA" for i j
    using v v1 that by auto
  with run g' show ?case by blast
qed

subsection \<open>The example instances are what the constructor returns\<close>

lemma construct_env2: "construct (ones 2) 10 [0, 1] = Inr env2"
  unfolding env2_def by code_simp

lemma construct_env3: "construct (ones 3) 10 [0, 1] = Inr env3"
  unfolding env3_def by code_simp

lemma construct_env0: "construct [[0, 1], [1, 1]] 10 [0, 1] = Inr env0"
  unfolding env0_def by code_simp

text \<open>
  Claim C8. On an instance with \<open>n\<close> states and \<open>n\<close> actions whose rewards table has at
  least \<open>n\<close> entries, \<open>get_reward_per_action\<close> returns an \<open>n\<close> by \<open>n\<close> array \<open>R\<close> with
  \<open>R[s][a] = rewards[successor(s, a)]\<close> for all states \<open>s\<close> and actions \<open>a\<close>, where
  \<open>successor\<close> is the clamped rule of the specification, and the call leaves the instance
  as it was.
\<close>

theorem reward_per_action_table:
  assumes "observation_space e = int n" "action_space e = int n" "n \<le> length (rewards e)"
  shows "\<exists>R. get_reward_per_action e = Inr R \<and> length R = n \<and> (\<forall>s<n. length (R ! s) = n) \<and>
           (\<forall>s<n. \<forall>a<n. R ! s ! a = rewards e ! nat (successor (int n) (int s) (int a))) \<and>
           perform e GetRewardPerAction = e"
proof -
  have a: "\<forall>s\<in>set [0..<n]. s < n" by simp
  from rpa_states_ok [OF grid_zeros [where z = "0::real"] a a assms(3)]
  obtain R where r: "rpa_states (int n) (rewards e) (map int [0..<n]) (map int [0..<n])
        (replicate n (replicate n 0)) = Inr R"
    and g: "grid R n n"
    and v: "\<forall>i<n. \<forall>j<n. R ! i ! j =
              (if i \<in> set [0..<n] \<and> j \<in> set [0..<n]
               then rewards e ! nat (successor (int n) (int i) (int j))
               else replicate n (replicate n 0) ! i ! j)"
    by blast
  have "get_reward_per_action e = Inr R"
    using r assms(1,2) by (simp add: get_reward_per_action_def range_def)
  moreover have "R ! s ! a = rewards e ! nat (successor (int n) (int s) (int a))"
    if "s < n" "a < n" for s a
    using v that by simp
  ultimately show ?thesis using g by (simp add: grid_def)
qed

text \<open>
  The default instance: \<open>R[0][1] = rewards[1] = 1\<close> and \<open>R[1][0] = rewards[0] = 0\<close>.
\<close>

theorem reward_per_action_table_witness:
  "observation_space env2 = int 2 \<and> action_space env2 = int 2 \<and> 2 \<le> length (rewards env2) \<and>
   (\<exists>R. get_reward_per_action env2 = Inr R \<and> R ! 0 ! 1 = 1 \<and> R ! 1 ! 0 = 0)"
proof -
  have h: "observation_space env2 = int 2" "action_space env2 = int 2" "2 \<le> length (rewards env2)"
    by (simp_all add: env2_def)
  from reward_per_action_table [OF h]
  obtain R where g: "get_reward_per_action env2 = Inr R"
    and v: "\<forall>s<2. \<forall>a<2. R ! s ! a = rewards env2 ! nat (successor (int 2) (int s) (int a))"
    by blast
  have n: "successor 2 0 1 = 1" "successor 2 1 0 = 0" "rewards env2 = [0, 1]"
    by (simp_all add: successor_def clamp_def env2_def)
  have "R ! 0 ! 1 = 1" using v [rule_format, of 0 1] n by simp
  moreover have "R ! 1 ! 0 = 0" using v [rule_format, of 1 0] n by simp
  ultimately have "R ! 0 ! 1 = 1" "R ! 1 ! 0 = 0" by blast+
  with g h show ?thesis by blast
qed

subsection \<open>\<open>step\<close>\<close>

lemma step_valid:
  assumes "contains (action_space e) a" "0 < observation_space e"
    "observation_space e \<le> int (length (rewards e))" "transition_count e = Some c"
  shows "step e a =
           (Inr (successor (observation_space e) (state e) a,
                 rewards e ! nat (successor (observation_space e) (state e) a),
                 False, horizon e \<le> c, []),
            e\<lparr>state := successor (observation_space e) (state e) a\<rparr>)"
proof -
  let ?x = "successor (observation_space e) (state e) a"
  have x: "0 \<le> ?x" "?x < int (length (rewards e))"
    using successor_range [OF assms(2), of "state e" a] assms(3) by auto
  have "getitem (rewards e) ?x = Some (rewards e ! nat ?x)"
    using x by (simp add: getitem_nonneg)
  then show ?thesis
    using assms(1,4) next_successor [OF assms(2), of "state e" a]
    by (simp add: step_def Let_def)
qed

lemma step_keeps_count: "transition_count (snd (step e a)) = transition_count e"
  by (simp add: step_def Let_def split: option.splits)

lemma step_keeps_horizon: "horizon (snd (step e a)) = horizon e"
  by (simp add: step_def Let_def split: option.splits)

lemma step_Inr:
  "fst (step e a) = Inr r \<Longrightarrow>
   \<exists>c rew. transition_count e = Some c \<and> r = (state (snd (step e a)), rew, False, horizon e \<le> c, [])"
  by (auto simp: step_def Let_def split: if_splits option.splits)

lemma steps_history_count:
  "transition_count (history e (map Step acts)) = transition_count e"
proof (induction acts rule: rev_induct)
  case Nil
  show ?case by (simp add: history_def)
next
  case (snoc a acts)
  then show ?case by (simp add: history_def step_keeps_count)
qed

text \<open>
  Claim C1, amended. On an instance with \<open>n\<close> states whose rewards table has at least \<open>n\<close>
  entries and on which \<open>reset\<close> has assigned the transition counter, for every current state
  in \<open>0 .. n - 1\<close> and every action in \<open>0 .. n - 1\<close>, \<open>step\<close> sets the state to
  \<open>clamp(state + (action == 0 ? -1 : +1), 0, n - 1)\<close>, returns that state together with the
  reward \<open>rewards[nextState]\<close>, and the successor lies in \<open>0 .. n - 1\<close>.
\<close>

theorem step_transition:
  assumes "observation_space e = n" "action_space e = n"
    "0 \<le> state e" "state e < n" "0 \<le> a" "a < n"
    "n \<le> int (length (rewards e))" "transition_count e = Some c"
  shows "step e a =
           (Inr (successor n (state e) a, rewards e ! nat (successor n (state e) a),
                 False, horizon e \<le> c, []),
            e\<lparr>state := successor n (state e) a\<rparr>) \<and>
         0 \<le> successor n (state e) a \<and> successor n (state e) a \<le> n - 1"
proof -
  have pos: "0 < observation_space e" using assms(1,3,4) by simp
  have val: "contains (action_space e) a" using assms(2,5,6) by (simp add: contains_def)
  have len: "observation_space e \<le> int (length (rewards e))" using assms(1,7) by simp
  from step_valid [OF val pos len assms(8)] successor_range [OF pos, of "state e" a]
  show ?thesis using assms(1) by simp
qed

text \<open>The default instance after \<open>reset\<close>, action \<open>1\<close>: the result is \<open>(1, 1.0, False, False, {})\<close>.\<close>

theorem step_transition_witness:
  "observation_space (snd (reset env2)) = 2 \<and> action_space (snd (reset env2)) = 2 \<and>
   0 \<le> state (snd (reset env2)) \<and> state (snd (reset env2)) < 2 \<and> (0::int) \<le> 1 \<and> (1::int) < 2 \<and>
   2 \<le> int (length (rewards (snd (reset env2)))) \<and> transition_count (snd (reset env2)) = Some 0 \<and>
   step (snd (reset env2)) 1 = (Inr (1, 1, False, False, []), (snd (reset env2))\<lparr>state := 1\<rparr>)"
proof -
  let ?e = "snd (reset env2)"
  have h: "observation_space ?e = 2" "action_space ?e = 2" "0 \<le> state ?e" "state ?e < 2"
    "(0::int) \<le> 1" "(1::int) < 2" "2 \<le> int (length (rewards ?e))" "transition_count ?e = Some 0"
    by (simp_all add: reset_def env2_def)
  from step_transition [OF h] h show ?thesis
    by (simp add: successor_def clamp_def reset_def env2_def)
qed

text \<open>
  Claim C1 as stated fails where the rewards table is shorter than the number of states:
  \<open>MyEnv(np.ones((3, 3)))\<close> keeps the default rewards \<open>[0, 1]\<close>; after \<open>reset\<close> and one
  \<open>step(1)\<close> the state is \<open>1\<close>, and the next \<open>step(1)\<close> sets the state to \<open>2\<close> and raises
  \<open>IndexError\<close> at \<open>rewards[2]\<close> instead of returning.
\<close>

theorem step_transition_counterexample:
  "construct (ones 3) 10 [0, 1] = Inr env3 \<and>
   observation_space (history env3 [Reset, Step 1]) = 3 \<and>
   action_space (history env3 [Reset, Step 1]) = 3 \<and>
   state (history env3 [Reset, Step 1]) = 1 \<and>
   step (history env3 [Reset, Step 1]) 1 = (Inl IndexError, (history env3 [Reset, Step 1])\<lparr>state := 2\<rparr>)"
  using construct_env3
  by (simp add: history_def reset_def step_def contains_def getitem_def index_of_def env3_def)

text \<open>
  Claim C2. Let \<open>e\<close> be the instance after \<open>reset\<close> and any sequence of \<open>step\<close> calls. The
  transition counter of \<open>e\<close> is \<open>0\<close> and the next \<open>step\<close> leaves it at \<open>0\<close>; every result the
  next \<open>step\<close> returns has \<open>truncated = (transition_count \<ge> horizon)\<close>, which is false
  whenever the horizon is positive; and the next \<open>step\<close> does return a result when its
  action is valid and the rewards table covers the states.
\<close>

theorem truncated_in_episode:
  assumes "e = history (snd (reset e0)) (map Step acts)"
  shows "transition_count e = Some 0 \<and> transition_count (snd (step e a)) = Some 0 \<and>
         (\<forall>r. fst (step e a) = Inr r \<longrightarrow>
              truncated_of r = (horizon e \<le> the (transition_count e)) \<and>
              (0 < horizon e0 \<longrightarrow> \<not> truncated_of r)) \<and>
         (action_space e0 = observation_space e0 \<and> contains (action_space e0) a \<and>
          observation_space e0 \<le> int (length (rewards e0)) \<longrightarrow>
            (\<exists>r. fst (step e a) = Inr r))"
proof -
  have fr: "e = (snd (reset e0))\<lparr>state := state e, transition_count := transition_count e\<rparr>"
    using history_frame [of "snd (reset e0)" "map Step acts"] assms by simp
  have c: "transition_count e = Some 0"
    using steps_history_count [of "snd (reset e0)" acts] assms by (simp add: reset_def)
  have hz: "horizon e = horizon e0" "action_space e = action_space e0"
    "observation_space e = observation_space e0" "rewards e = rewards e0"
    by (subst fr, simp add: reset_def)+
  have tr: "truncated_of r = (horizon e \<le> the (transition_count e)) \<and> (0 < horizon e0 \<longrightarrow> \<not> truncated_of r)"
    if "fst (step e a) = Inr r" for r
    using step_Inr [OF that] c hz(1) by auto
  have tot: "\<exists>r. fst (step e a) = Inr r"
    if "action_space e0 = observation_space e0 \<and> contains (action_space e0) a \<and>
          observation_space e0 \<le> int (length (rewards e0))"
  proof -
    from that have pos: "0 < observation_space e" by (auto simp: contains_def hz)
    from that have val: "contains (action_space e) a" by (auto simp: hz)
    from that have len: "observation_space e \<le> int (length (rewards e))" by (auto simp: hz)
    from step_valid [OF val pos len c] show ?thesis by (metis fst_conv)
  qed
  have kc: "transition_count (snd (step e a)) = Some 0"
    using c by (simp add: step_keeps_count)
  from c kc tr tot show ?thesis by blast
qed

text \<open>The default instance after \<open>reset\<close>, \<open>step(1)\<close>, \<open>step(0)\<close>, stepping with action \<open>1\<close>.\<close>

theorem truncated_in_episode_witness:
  "history (snd (reset env2)) (map Step [1, 0]) = history (snd (reset env2)) (map Step [1, 0]) \<and>
   fst (step (history (snd (reset env2)) (map Step [1, 0])) 1) = Inr (1, 1, False, False, []) \<and>
   \<not> truncated_of (1, 1, False, False, []) \<and> 0 < horizon env2 \<and>
   action_space env2 = observation_space env2 \<and> contains (action_space env2) 1 \<and>
   observation_space env2 \<le> int (length (rewards env2)) \<and>
   transition_count (snd (step (history (snd (reset env2)) (map Step [1, 0])) 1)) = Some 0"
proof -
  let ?e = "history (snd (reset env2)) (map Step [1, 0])"
  have s: "fst (step ?e 1) = Inr (1, 1, False, False, [])"
    by (simp add: history_def reset_def step_def contains_def getitem_def index_of_def env2_def)
  have h: "0 < horizon env2" "action_space env2 = observation_space env2"
    "contains (action_space env2) 1" "observation_space env2 \<le> int (length (rewards env2))"
    by (simp_all add: env2_def contains_def)
  from truncated_in_episode [OF refl, of env2 "[1, 0]" 1] s h show ?thesis by simp
qed

subsection \<open>The transition tensor of an instance\<close>

lemma gtm_frame:
  "get_transition_matrix (e\<lparr>state := x, transition_count := y\<rparr>) S A Pm = get_transition_matrix e S A Pm"
  by (simp add: get_transition_matrix_def)

lemma construct_attributes:
  assumes "construct tp hor rws = Inr e"
  shows "P e = tp" "states e = map int [0..<length tp]" "actions e = map int [0..<length tp]"
    "get_transition_matrix e None None None = Inr (T e)"
proof -
  from construct_Inr [OF assms] obtain Tm where g: "get_transition_matrix e None None None = Inr Tm"
    and eq: "e = \<lparr> P = tp, rewards = rws, horizon = hor, state = 0,
                  observation_space = int (length tp), action_space = int (length tp),
                  states = map int [0..<length tp], actions = map int [0..<length tp],
                  transition_matrix = Tm, T = Tm, transition_count = None \<rparr>"
    by blast
  show "P e = tp" by (subst eq) simp
  show "states e = map int [0..<length tp]" by (subst eq) simp
  show "actions e = map int [0..<length tp]" by (subst eq) simp
  have "T e = Tm" by (subst eq) simp
  with g show "get_transition_matrix e None None None = Inr (T e)" by simp
qed

text \<open>
  Claim C3, amended. On every instance, after any history of calls,
  \<open>get_transition_matrix()\<close> returns the cached tensor \<open>T\<close>, of shape \<open>(n, n, n)\<close>, and for
  every state \<open>s\<close> and action \<open>a\<close> the entry \<open>T[s][a][s']\<close> is \<open>P[s, a]\<close> where \<open>s'\<close> is the
  clamped successor of \<open>(s, a)\<close> and \<open>0\<close> everywhere else. So a non-zero entry sits at the
  successor, and a row \<open>T[s, a, :]\<close> has at most one non-zero entry: exactly one when
  \<open>P[s, a]\<close> is not zero, none when it is.
\<close>

theorem transition_tensor_cells:
  assumes c: "construct tp hor rws = Inr e0" and h: "e = history e0 cs"
    and s: "s < length tp" and a: "a < length tp"
  shows "\<exists>Tm. get_transition_matrix e None None None = Inr Tm \<and> T e = Tm \<and> P e = tp \<and>
           cube Tm (length tp) (length tp) (length tp) \<and>
           (\<forall>k<length tp. Tm ! s ! a ! k =
              (if int k = successor (int (length tp)) (int s) (int a) then tp ! s ! a else 0)) \<and>
           (\<forall>k<length tp. Tm ! s ! a ! k \<noteq> 0 \<longrightarrow>
              int k = successor (int (length tp)) (int s) (int a))"
proof -
  let ?n = "length tp"
  note at = construct_attributes [OF c]
  have fr: "e = e0\<lparr>state := state e, transition_count := transition_count e\<rparr>"
    using history_frame [of e0 cs] h by simp
  have ge: "get_transition_matrix e None None None = get_transition_matrix e0 None None None"
    by (subst fr) (rule gtm_frame)
  have te: "T e = T e0" by (subst fr) simp
  have pe: "P e = tp" using at(1) by (subst fr) simp
  have cols: "\<forall>s<?n. ?n \<le> length (P e0 ! s)"
    using construct_columns [OF c] at(1) by simp
  have rows: "?n \<le> length (P e0)" using at(1) by simp
  from gtm_instance [OF at(2) at(3) rows cols]
  obtain Tm where g: "get_transition_matrix e0 None None None = Inr Tm"
    and sh: "cube Tm ?n ?n ?n"
    and v: "\<forall>i<?n. \<forall>j<?n. \<forall>k<?n. Tm ! i ! j ! k =
              (if int k = successor (int ?n) (int i) (int j) then P e0 ! i ! j else 0)"
    by blast
  have t0: "T e0 = Tm" using g at(4) by simp
  have cell: "Tm ! s ! a ! k = (if int k = successor (int ?n) (int s) (int a) then tp ! s ! a else 0)"
    if "k < ?n" for k
    using v [rule_format, OF s a that] at(1) by simp
  have nz: "int k = successor (int ?n) (int s) (int a)" if "k < ?n" "Tm ! s ! a ! k \<noteq> 0" for k
    using cell [OF that(1)] that(2) by (simp split: if_splits)
  have "get_transition_matrix e None None None = Inr Tm" using ge g by simp
  moreover have "T e = Tm" using te t0 by simp
  ultimately show ?thesis using pe sh cell nz by blast
qed

text \<open>
  The default instance after \<open>reset\<close> and \<open>step(1)\<close>: \<open>T[0][1][1] = 1\<close> and
  \<open>T[0][1][0] = 0\<close>.
\<close>

theorem transition_tensor_cells_witness:
  "construct (ones 2) 10 [0, 1] = Inr env2 \<and> (0::nat) < length (ones 2) \<and> (1::nat) < length (ones 2) \<and>
   (\<exists>Tm. get_transition_matrix (history env2 [Reset, Step 1]) None None None = Inr Tm \<and>
      Tm ! 0 ! 1 ! 1 = 1 \<and> Tm ! 0 ! 1 ! 0 = 0)"
proof -
  have l: "(0::nat) < length (ones 2)" "(1::nat) < length (ones 2)" by (simp_all add: ones_def)
  from transition_tensor_cells [OF construct_env2 refl l, of "[Reset, Step 1]"]
  obtain Tm where g: "get_transition_matrix (history env2 [Reset, Step 1]) None None None = Inr Tm"
    and v: "\<forall>k<length (ones 2). Tm ! 0 ! 1 ! k =
              (if int k = successor (int (length (ones 2))) (int 0) (int 1) then ones 2 ! 0 ! 1 else 0)"
    by blast
  have n: "length (ones 2) = 2" "successor 2 0 1 = 1" "ones 2 ! 0 ! 1 = 1"
    by (simp_all add: ones_def successor_def clamp_def)
  have "Tm ! 0 ! 1 ! 1 = 1" using v [rule_format, of 1] n by simp
  moreover have "Tm ! 0 ! 1 ! 0 = 0" using v [rule_format, of 0] n by simp
  ultimately have "Tm ! 0 ! 1 ! 1 = 1" "Tm ! 0 ! 1 ! 0 = 0" by blast+
  with g construct_env2 l show ?thesis by blast
qed

text \<open>
  Claim C3 as stated fails where \<open>P\<close> has a zero entry: with \<open>P = [[0, 1], [1, 1]]\<close> the
  successor of \<open>(0, 0)\<close> is \<open>0\<close>, yet \<open>T[0][0][0] = P[0, 0] = 0\<close>, and the row \<open>T[0, 0, :]\<close>
  has no non-zero entry at all.
\<close>

theorem transition_tensor_counterexample:
  "construct [[0, 1], [1, 1]] 10 [0, 1] = Inr env0 \<and>
   get_transition_matrix env0 None None None = Inr [[[0, 0], [0, 1]], [[1, 0], [0, 1]]] \<and>
   successor 2 0 0 = 0 \<and>
   [[[0, 0], [0, 1]], [[1, 0], [0, 1]]] ! 0 ! 0 = [0, 0 :: real]"
proof -
  have "get_transition_matrix env0 None None None = Inr [[[0, 0], [0, 1]], [[1, 0], [0, 1]]]"
    unfolding env0_def by code_simp
  then show ?thesis using construct_env0 by (simp add: successor_def clamp_def)
qed

text \<open>
  Claim C4, evaluated on the code. On the default instance, whose \<open>P\<close> is all ones, the call
  \<open>get_transition_matrix(P=[[0.5, 0.5], [0.5, 0.5]])\<close> with \<open>S\<close> and \<open>A\<close> omitted returns
  the tensor of the instance's own \<open>P\<close>: the supplied matrix is dropped. Supplying all
  three arguments gives the tensor of the supplied matrix.
\<close>

theorem transition_matrix_partial_arguments:
  "construct (ones 2) 10 [0, 1] = Inr env2 \<and>
   get_transition_matrix env2 None None (Some [[1 / 2, 1 / 2], [1 / 2, 1 / 2]]) =
     Inr [[[1, 0], [0, 1]], [[1, 0], [0, 1]]] \<and>
   get_transition_matrix env2 (Some [0, 1]) (Some [0, 1]) (Some [[1 / 2, 1 / 2], [1 / 2, 1 / 2]]) =
     Inr [[[1 / 2, 0], [0, 1 / 2]], [[1 / 2, 0], [0, 1 / 2]]]"
proof -
  have a: "get_transition_matrix env2 None None (Some [[1 / 2, 1 / 2], [1 / 2, 1 / 2]]) =
     Inr [[[1, 0], [0, 1]], [[1, 0], [0, 1]]]"
    unfolding env2_def by code_simp
  have b: "get_transition_matrix env2 (Some [0, 1]) (Some [0, 1]) (Some [[1 / 2, 1 / 2], [1 / 2, 1 / 2]]) =
     Inr [[[1 / 2, 0], [0, 1 / 2]], [[1 / 2, 0], [0, 1 / 2]]]"
    unfolding env2_def by code_simp
  from a b construct_env2 show ?thesis by simp
qed

subsection \<open>Errors of \<open>step\<close>\<close>

text \<open>
  Claim C5. \<open>step\<close> raises the \<open>RuntimeError\<close> for an invalid action exactly when the
  action is outside \<open>0 .. n - 1\<close>, \<open>n\<close> the size of the action space, and then the instance,
  its state and transition counter included, is unchanged.
\<close>

theorem step_invalid_action:
  "(fst (step e a) = Inl RuntimeError) = (\<not> (0 \<le> a \<and> a < action_space e)) \<and>
   (fst (step e a) = Inl RuntimeError \<longrightarrow> snd (step e a) = e)"
  by (auto simp: step_def contains_def Let_def split: option.splits)

text \<open>
  Action \<open>2\<close> on the default instance.
\<close>

theorem step_invalid_action_witness:
  "\<not> (0 \<le> (2::int) \<and> 2 < action_space env2) \<and> fst (step env2 2) = Inl RuntimeError \<and>
   snd (step env2 2) = env2"
proof -
  have out: "\<not> (0 \<le> (2::int) \<and> 2 < action_space env2)" by (simp add: env2_def)
  with step_invalid_action [of env2 2] show ?thesis by blast
qed

text \<open>
  Claim C6, evaluated on the code. \<open>MyEnv()\<close> has no \<open>transition_count\<close> before the first
  \<open>reset\<close>; \<open>step(1)\<close> on it assigns state \<open>1\<close> and then raises \<open>AttributeError\<close> at the
  comparison with the horizon.
\<close>

theorem step_before_reset:
  "construct (ones 2) 10 [0, 1] = Inr env2 \<and> transition_count env2 = None \<and>
   step env2 1 = (Inl AttributeError, env2\<lparr>state := 1\<rparr>)"
  using construct_env2
  by (simp add: step_def contains_def getitem_def index_of_def env2_def)

text \<open>
  Claim C9. Every result \<open>step\<close> returns has \<open>terminated = False\<close>, in every state and for
  every action; and \<open>step\<close> does return a result for a valid action when the rewards table
  covers the states and the transition counter exists.
\<close>

theorem step_not_terminated:
  "(\<forall>r. fst (step e a) = Inr r \<longrightarrow> terminated_of r = False) \<and>
   (contains (action_space e) a \<and> 0 < observation_space e \<and>
    observation_space e \<le> int (length (rewards e)) \<and> transition_count e = Some c \<longrightarrow>
      (\<exists>r. fst (step e a) = Inr r \<and> terminated_of r = False))"
proof -
  have a: "terminated_of r = False" if "fst (step e a) = Inr r" for r
    using step_Inr [OF that] by auto
  have b: "\<exists>r. fst (step e a) = Inr r \<and> terminated_of r = False"
    if "contains (action_space e) a \<and> 0 < observation_space e \<and>
        observation_space e \<le> int (length (rewards e)) \<and> transition_count e = Some c"
  proof -
    from that have h: "contains (action_space e) a" "0 < observation_space e"
      "observation_space e \<le> int (length (rewards e))" "transition_count e = Some c"
      by simp_all
    from step_valid [OF h] have "\<exists>r. fst (step e a) = Inr r" by (metis fst_conv)
    with a show ?thesis by blast
  qed
  from a b show ?thesis by blast
qed

text \<open>
  Action \<open>0\<close> on the default instance after \<open>reset\<close>.
\<close>

theorem step_not_terminated_witness:
  "contains (action_space (snd (reset env2))) 0 \<and> 0 < observation_space (snd (reset env2)) \<and>
   observation_space (snd (reset env2)) \<le> int (length (rewards (snd (reset env2)))) \<and>
   transition_count (snd (reset env2)) = Some 0 \<and>
   (\<exists>r. fst (step (snd (reset env2)) 0) = Inr r \<and> terminated_of r = False)"
proof -
  have h: "contains (action_space (snd (reset env2))) 0 \<and> 0 < observation_space (snd (reset env2)) \<and>
   observation_space (snd (reset env2)) \<le> int (length (rewards (snd (reset env2)))) \<and>
   transition_count (snd (reset env2)) = Some 0"
    by (simp add: reset_def env2_def contains_def)
  with step_not_terminated [of "snd (reset env2)" 0 0] show ?thesis by blast
qed

subsection \<open>\<open>reset\<close> and the frame of all operations\<close>

text \<open>
  Claim C7. After any history of calls, \<open>reset\<close> returns \<open>(0, {})\<close> and leaves the instance
  with state \<open>0\<close> and transition counter \<open>0\<close>, all other attributes as they were. \<open>reset\<close>
  has no error result.
\<close>

theorem reset_result:
  "reset (history e cs) =
     ((0, []), (history e cs)\<lparr>state := 0, transition_count := Some 0\<rparr>) \<and>
   state (snd (reset (history e cs))) = 0 \<and>
   transition_count (snd (reset (history e cs))) = Some 0"
  by (simp add: reset_def)

text \<open>
  Claim C10. Whatever sequence of \<open>reset\<close>, \<open>step\<close>, \<open>get_reward_per_action\<close> and
  \<open>get_transition_matrix\<close> calls runs on an instance, \<open>P\<close>, the rewards, the horizon and the
  cached tensor stay as they were, and the instance differs from the original in \<open>state\<close>
  and \<open>transition_count\<close> at most.
\<close>

theorem operations_frame:
  "P (history e cs) = P e \<and> rewards (history e cs) = rewards e \<and>
   horizon (history e cs) = horizon e \<and> transition_matrix (history e cs) = transition_matrix e \<and>
   T (history e cs) = T e \<and>
   history e cs = e\<lparr>state := state (history e cs), transition_count := transition_count (history e cs)\<rparr>"
proof -
  have fr: "history e cs = e\<lparr>state := state (history e cs), transition_count := transition_count (history e cs)\<rparr>"
    by (rule history_frame)
  have "P (history e cs) = P e" "rewards (history e cs) = rewards e"
   "horizon (history e cs) = horizon e" "transition_matrix (history e cs) = transition_matrix e"
   "T (history e cs) = T e"
    by (subst fr, simp)+
  with fr show ?thesis by blast
qed

end
